theory Spec2Isabelle
  imports Main "HOL-Library.AList" "HOL-Library.Product_Lexorder" "HOL-Library.Option_ord"
begin

section \<open>merge\_last\_days.py: data model\<close>

text \<open>
  A CSV table is the list of rows that \<^verbatim>\<open>list(csv.reader(f))\<close> returns; a row is a list
  of strings. A character stands for a code point below 256.

  A \<^verbatim>\<open>datetime.date\<close> is the triple (year, month, day); Python compares two dates as
  these triples, lexicographically, which is the order of \<open>Product_Lexorder\<close>.
\<close>

type_synonym row = "string list"

type_synonym date = "int \<times> int \<times> int"

datatype exn = ValueError | IndexError | KeyError | TypeError | OSError | OverflowError

subsection \<open>The date arithmetic of the datetime module\<close>

definition is_leap :: "int \<Rightarrow> bool" where
  "is_leap year = (year mod 4 = 0 \<and> (year mod 100 \<noteq> 0 \<or> year mod 400 = 0))"

definition days_in_month_table :: "int list" where
  "days_in_month_table = [-1, 31, 28, 31, 30, 31, 30, 31, 31, 30, 31, 30, 31]"

definition days_before_month_table :: "int list" where
  "days_before_month_table = [-1, 0, 31, 59, 90, 120, 151, 181, 212, 243, 273, 304, 334]"

definition days_in_month :: "int \<Rightarrow> int \<Rightarrow> int" where
  "days_in_month year month =
     (if month = 2 \<and> is_leap year then 29 else days_in_month_table ! nat month)"

definition days_before_year :: "int \<Rightarrow> int" where
  "days_before_year year =
     (let y = year - 1 in y * 365 + y div 4 - y div 100 + y div 400)"

definition days_before_month :: "int \<Rightarrow> int \<Rightarrow> int" where
  "days_before_month year month =
     days_before_month_table ! nat month + (if month > 2 \<and> is_leap year then 1 else 0)"

definition toordinal :: "date \<Rightarrow> int" where
  "toordinal dt = (case dt of (year, month, day) \<Rightarrow>
     days_before_year year + days_before_month year month + day)"

definition fromordinal :: "int \<Rightarrow> date" where
  "fromordinal n0 =
     (let n = n0 - 1;
          n400 = n div 146097; n = n mod 146097;
          year = n400 * 400 + 1;
          n100 = n div 36524; n = n mod 36524;
          n4 = n div 1461; n = n mod 1461;
          n1 = n div 365; n = n mod 365;
          year = year + n100 * 100 + n4 * 4 + n1
      in if n1 = 4 \<or> n100 = 4 then (year - 1, 12, 31)
         else
           let leapyear = (n1 = 3 \<and> (n4 \<noteq> 24 \<or> n100 = 3));
               month = (n + 50) div 32;
               preceding = days_before_month_table ! nat month
                           + (if month > 2 \<and> leapyear then 1 else 0)
           in if preceding > n
              then let month = month - 1;
                       preceding = preceding - (days_in_month_table ! nat month
                                     + (if month = 2 \<and> leapyear then 1 else 0))
                   in (year, month, n - preceding + 1)
              else (year, month, n - preceding + 1))"

text \<open>
  \<^verbatim>\<open>date(year, month, day)\<close>: the constructor raises ValueError outside
  \<^verbatim>\<open>MINYEAR..MAXYEAR\<close>, \<^verbatim>\<open>1..12\<close> and the days of the month.
\<close>

definition new_date :: "int \<Rightarrow> int \<Rightarrow> int \<Rightarrow> exn + date" where
  "new_date year month day =
     (if 1 \<le> year \<and> year \<le> 9999 \<and> 1 \<le> month \<and> month \<le> 12
         \<and> 1 \<le> day \<and> day \<le> days_in_month year month
      then Inr (year, month, day) else Inl ValueError)"

text \<open>
  \<^verbatim>\<open>d - datetime.timedelta(days=k)\<close>: the timedelta constructor raises OverflowError when
  \<^verbatim>\<open>abs(k) > 999999999\<close>, and the subtraction when the ordinal leaves
  \<^verbatim>\<open>1..date.max.toordinal()\<close>.
\<close>

definition date_sub_days :: "date \<Rightarrow> int \<Rightarrow> exn + date" where
  "date_sub_days d k =
     (if \<bar>k\<bar> > 999999999 then Inl OverflowError
      else let n = toordinal d - k
           in if 0 < n \<and> n \<le> 3652059 then Inr (fromordinal n) else Inl OverflowError)"

subsection \<open>Strings\<close>

text \<open>\<^verbatim>\<open>str.isspace\<close> on one character, for code points below 256.\<close>

definition isspace :: "char \<Rightarrow> bool" where
  "isspace c = (let n = (of_char c :: nat)
                in (9 \<le> n \<and> n \<le> 13) \<or> (28 \<le> n \<and> n \<le> 32) \<or> n = 133 \<or> n = 160)"

definition strip :: "string \<Rightarrow> string" where
  "strip s = rev (dropWhile isspace (rev (dropWhile isspace s)))"

text \<open>\<^verbatim>\<open>s.split(c)[0]\<close>: the part of \<open>s\<close> before the first \<open>c\<close>, all of \<open>s\<close> without one.\<close>

definition split_first :: "char \<Rightarrow> string \<Rightarrow> string" where
  "split_first c s = takeWhile (\<lambda>x. x \<noteq> c) s"

definition digit_val :: "char \<Rightarrow> int option" where
  "digit_val c = (let n = (of_char c :: nat)
                  in if 48 \<le> n \<and> n \<le> 57 then Some (int n - 48) else None)"

fun parse_digits :: "string \<Rightarrow> int \<Rightarrow> int option" where
  "parse_digits [] acc = Some acc"
| "parse_digits (c # cs) acc =
     (case digit_val c of None \<Rightarrow> None | Some v \<Rightarrow> parse_digits cs (acc * 10 + v))"

text \<open>
  \<^verbatim>\<open>datetime.date.fromisoformat\<close> for the format \<^verbatim>\<open>YYYY-MM-DD\<close>: ten characters, four
  digits, a hyphen, two digits, a hyphen, two digits, then the constructor's range
  checks; anything else raises ValueError. (Python 3.11 and later also read the basic
  and week formats of ISO 8601; they are not modelled.)
\<close>

definition fromisoformat :: "string \<Rightarrow> exn + date" where
  "fromisoformat s =
     (if length s \<noteq> 10 then Inl ValueError
      else case (parse_digits (take 4 s) 0, parse_digits (take 2 (drop 5 s)) 0,
                 parse_digits (drop 8 s) 0) of
             (Some year, Some month, Some day) \<Rightarrow>
               if s ! 4 = CHR ''-'' \<and> s ! 7 = CHR ''-'' then new_date year month day
               else Inl ValueError
           | _ \<Rightarrow> Inl ValueError)"

subsection \<open>parse\_date\<close>

text \<open>
  \<^verbatim>\<open>
  def parse_date(s):
      s = s.strip()
      if not s:
          return None
      s = s.split('T')[0].split(' ')[0]
      return datetime.date.fromisoformat(s)
  \<close>
  The result is \<open>Inr None\<close> for \<^verbatim>\<open>None\<close>, \<open>Inr (Some d)\<close> for a date, and \<open>Inl e\<close>
  when the call raises.
\<close>

definition parse_date :: "string \<Rightarrow> exn + date option" where
  "parse_date s0 =
     (let s = strip s0
      in if s = [] then Inr None
         else case fromisoformat (split_first CHR '' '' (split_first CHR ''T'' s)) of
                Inl e \<Rightarrow> Inl e
              | Inr d \<Rightarrow> Inr (Some d))"

section \<open>The program\<close>

subsection \<open>Command line, files and the outcome of a run\<close>

record args =
  old_path :: "string option"
  new_path :: string
  out_path :: string
  keep_days :: int
  date_col :: string

text \<open>
  A path names no file, or a file with its size in bytes and what opening it and
  reading it through \<^verbatim>\<open>csv.reader\<close> gives: the rows, or the exception raised.
\<close>

datatype csv_file = Absent | File nat "exn + row list"

record env =
  fs :: "string \<Rightarrow> csv_file"
  can_write :: "string \<Rightarrow> bool"
  today :: date

text \<open>
  What a run leaves behind: the exit status of the process, the lines on the error
  stream, and the table written to \<^verbatim>\<open>args.out\<close> (\<open>None\<close>: the file was not touched).
  An exception nothing catches ends the process with a traceback on the error stream
  and exit status 1.
\<close>

datatype diag = Message string | Traceback exn

record result =
  exit_code :: nat
  stderr :: "diag list"
  written :: "row list option"

definition sys_exit :: "nat \<Rightarrow> diag list \<Rightarrow> result" where
  "sys_exit n err = \<lparr>exit_code = n, stderr = err, written = None\<rparr>"

definition uncaught :: "exn \<Rightarrow> diag list \<Rightarrow> result" where
  "uncaught e err = \<lparr>exit_code = 1, stderr = err @ [Traceback e], written = None\<rparr>"

definition read_csv :: "env \<Rightarrow> string \<Rightarrow> exn + row list" where
  "read_csv e p = (case fs e p of Absent \<Rightarrow> Inl OSError | File n c \<Rightarrow> c)"

definition path_exists :: "env \<Rightarrow> string \<Rightarrow> bool" where
  "path_exists e p = (fs e p \<noteq> Absent)"

definition getsize :: "env \<Rightarrow> string \<Rightarrow> nat" where
  "getsize e p = (case fs e p of Absent \<Rightarrow> 0 | File n c \<Rightarrow> n)"

subsection \<open>List operations of Python\<close>

text \<open>\<^verbatim>\<open>xs.index(x)\<close>: the first position of \<open>x\<close>, ValueError without one.\<close>

fun list_index :: "'a list \<Rightarrow> 'a \<Rightarrow> exn + nat" where
  "list_index [] x = Inl ValueError"
| "list_index (y # ys) x =
     (if y = x then Inr 0
      else case list_index ys x of Inl e \<Rightarrow> Inl e | Inr i \<Rightarrow> Inr (Suc i))"

text \<open>\<^verbatim>\<open>xs[i]\<close> for \<open>i \<ge> 0\<close>: IndexError out of range.\<close>

definition getitem :: "'a list \<Rightarrow> nat \<Rightarrow> exn + 'a" where
  "getitem xs i = (if i < length xs then Inr (xs ! i) else Inl IndexError)"

text \<open>The expression \<^verbatim>\<open>parse_date(row[di])\<close> of lines 73, 86 and 101.\<close>

definition parse_date_at :: "nat \<Rightarrow> row \<Rightarrow> exn + date option" where
  "parse_date_at di row =
     (case getitem row di of Inl e \<Rightarrow> Inl e | Inr s \<Rightarrow> parse_date s)"

subsection \<open>The loops of main\<close>

text \<open>
  Lines 68 to 77. The dict \<^verbatim>\<open>new_recent\<close> is an association list in insertion order:
  \<open>AList.update\<close> replaces the value of a key that is present, in place, and appends a
  new key, as a Python dict does. \<^verbatim>\<open>parse_date\<close> is called outside any \<^verbatim>\<open>try\<close>, so
  an exception leaves the loop and the program.
\<close>

fun index_new :: "row \<Rightarrow> nat \<Rightarrow> date \<Rightarrow> row list \<Rightarrow> (date \<times> row) list
                   \<Rightarrow> exn + (date \<times> row) list" where
  "index_new header di cutoff [] new_recent = Inr new_recent"
| "index_new header di cutoff (row # rows) new_recent =
     (if length row \<noteq> length header then index_new header di cutoff rows new_recent
      else case parse_date_at di row of
             Inl e \<Rightarrow> Inl e
           | Inr None \<Rightarrow> index_new header di cutoff rows new_recent
           | Inr (Some d) \<Rightarrow>
               if d \<ge> cutoff
               then index_new header di cutoff rows (AList.update d row new_recent)
               else index_new header di cutoff rows new_recent)"

text \<open>
  Lines 82 to 92. Here \<^verbatim>\<open>parse_date(row[di])\<close> is inside \<^verbatim>\<open>try ... except Exception:
  continue\<close>.
\<close>

fun keep_old :: "row \<Rightarrow> nat \<Rightarrow> date \<Rightarrow> row list \<Rightarrow> row list \<Rightarrow> row list" where
  "keep_old header di cutoff [] merged = merged"
| "keep_old header di cutoff (row # rows) merged =
     (if length row \<noteq> length header then keep_old header di cutoff rows merged
      else case parse_date_at di row of
             Inl e \<Rightarrow> keep_old header di cutoff rows merged
           | Inr None \<Rightarrow> keep_old header di cutoff rows merged
           | Inr (Some d) \<Rightarrow>
               if d < cutoff then keep_old header di cutoff rows (merged @ [row])
               else keep_old header di cutoff rows merged)"

text \<open>Lines 96 and 97; \<^verbatim>\<open>new_recent[d]\<close> raises KeyError for a key that is absent.\<close>

fun append_recent :: "(date \<times> row) list \<Rightarrow> date list \<Rightarrow> row list \<Rightarrow> exn + row list" where
  "append_recent new_recent [] merged = Inr merged"
| "append_recent new_recent (d # ds) merged =
     (case map_of new_recent d of
        None \<Rightarrow> Inl KeyError
      | Some row \<Rightarrow> append_recent new_recent ds (merged @ [row]))"

text \<open>
  Line 101, \<^verbatim>\<open>sorted(body, key=lambda r: parse_date(r[di]))\<close>. The keys are computed first,
  in order, and the first exception leaves the call. The sort is stable and compares
  keys only; every key takes part in a comparison once there are two rows, and comparing
  \<^verbatim>\<open>None\<close> raises TypeError. On keys that are all dates the order of \<open>Option_ord\<close> is the
  order of the dates.
\<close>

fun sort_keys :: "nat \<Rightarrow> row list \<Rightarrow> exn + date option list" where
  "sort_keys di [] = Inr []"
| "sort_keys di (r # rs) =
     (case parse_date_at di r of
        Inl e \<Rightarrow> Inl e
      | Inr k \<Rightarrow> (case sort_keys di rs of Inl e \<Rightarrow> Inl e | Inr ks \<Rightarrow> Inr (k # ks)))"

definition sorted_by_date :: "nat \<Rightarrow> row list \<Rightarrow> exn + row list" where
  "sorted_by_date di body =
     (case sort_keys di body of
        Inl e \<Rightarrow> Inl e
      | Inr ks \<Rightarrow>
          if 2 \<le> length body \<and> None \<in> set ks then Inl TypeError
          else Inr (map snd (sort_key fst (zip ks body))))"

subsection \<open>main\<close>

text \<open>The warning of line 63.\<close>

definition headers_differ :: diag where
  "headers_differ =
     Message ''WARNING: headers differ; using NEW header & NEW data for recent window''"

text \<open>Lines 54 to 63: the old table, and whether the warning is printed.\<close>

definition load_old :: "args \<Rightarrow> env \<Rightarrow> row \<Rightarrow> exn + (row list \<times> diag list)" where
  "load_old a e header =
     (case old_path a of
        None \<Rightarrow> Inr ([], [])
      | Some p \<Rightarrow>
          if p \<noteq> [] \<and> path_exists e p \<and> getsize e p > 0
          then (case read_csv e p of
                  Inl x \<Rightarrow> Inl x
                | Inr rows \<Rightarrow>
                    let old_rows = (if rows = [] then [header] else rows)
                    in if old_rows ! 0 \<noteq> header
                       then Inr (old_rows, [headers_differ])
                       else Inr (old_rows, []))
          else Inr ([], []))"

text \<open>Lines 67 to 97: \<^verbatim>\<open>merged\<close> before the sort, header first.\<close>

definition merge_body :: "row list \<Rightarrow> row list \<Rightarrow> nat \<Rightarrow> date \<Rightarrow> exn + row list" where
  "merge_body new_rows old_rows di cutoff =
     (let header = new_rows ! 0
      in case index_new header di cutoff (tl new_rows) [] of
           Inl x \<Rightarrow> Inl x
         | Inr new_recent \<Rightarrow>
             let old_body = (if old_rows \<noteq> [] then tl old_rows else []);
                 merged = keep_old header di cutoff old_body [header]
             in append_recent new_recent (sort (map fst new_recent)) merged)"

text \<open>Lines 99 to 102: the body sorted, under the header.\<close>

definition merge_rows :: "row list \<Rightarrow> row list \<Rightarrow> nat \<Rightarrow> date \<Rightarrow> exn + row list" where
  "merge_rows new_rows old_rows di cutoff =
     (case merge_body new_rows old_rows di cutoff of
        Inl x \<Rightarrow> Inl x
      | Inr merged \<Rightarrow>
          (case sorted_by_date di (tl merged) of
             Inl x \<Rightarrow> Inl x
           | Inr body_sorted \<Rightarrow> Inr ([new_rows ! 0] @ body_sorted)))"

definition main :: "args \<Rightarrow> env \<Rightarrow> result" where
  "main a e =
     (case read_csv e (new_path a) of
        Inl x \<Rightarrow> uncaught x []
      | Inr new_rows \<Rightarrow>
          if new_rows = [] then sys_exit 2 [Message ''ERROR: new CSV is empty'']
          else
            let header = new_rows ! 0
            in (case list_index header (date_col a) of
                  Inl x \<Rightarrow> sys_exit 2 [Message (''ERROR: date column '' @ [CHR 0x27] @ date_col a
                                                @ [CHR 0x27] @ '' not found in NEW header'')]
                | Inr di \<Rightarrow>
                    (case load_old a e header of
                       Inl x \<Rightarrow> uncaught x []
                     | Inr (old_rows, warn) \<Rightarrow>
                         (case date_sub_days (today e) (keep_days a) of
                            Inl x \<Rightarrow> uncaught x warn
                          | Inr cutoff \<Rightarrow>
                              (case merge_rows new_rows old_rows di cutoff of
                                 Inl x \<Rightarrow> uncaught x warn
                               | Inr merged \<Rightarrow>
                                   if can_write e (out_path a)
                                   then \<lparr>exit_code = 0, stderr = warn, written = Some merged\<rparr>
                                   else uncaught OSError warn)))))"

section \<open>Notions used in the statements\<close>

text \<open>The date of a usable row: its field count is the header's (lines 70, 83) and
  \<^verbatim>\<open>parse_date(row[di])\<close> returns a date; \<open>None\<close> for a row that is not usable.\<close>

definition row_date :: "row \<Rightarrow> nat \<Rightarrow> row \<Rightarrow> date option" where
  "row_date header di row =
     (if length row = length header
      then (case parse_date_at di row of Inr (Some d) \<Rightarrow> Some d | _ \<Rightarrow> None)
      else None)"

text \<open>The rows the loop of lines 82 to 92 keeps.\<close>

definition is_history :: "row \<Rightarrow> nat \<Rightarrow> date \<Rightarrow> row \<Rightarrow> bool" where
  "is_history header di cutoff row =
     (case row_date header di row of Some d \<Rightarrow> d < cutoff | None \<Rightarrow> False)"

text \<open>The sort key of a row, \<open>None\<close> also where \<^verbatim>\<open>parse_date(r[di])\<close> raises.\<close>

definition key_of :: "nat \<Rightarrow> row \<Rightarrow> date option" where
  "key_of di row = (case parse_date_at di row of Inr k \<Rightarrow> k | Inl e \<Rightarrow> None)"

text \<open>The usable rows of a table body with the date \<open>d\<close>, in the order of the table.\<close>

definition usable_on :: "row \<Rightarrow> nat \<Rightarrow> row list \<Rightarrow> date \<Rightarrow> row list" where
  "usable_on header di rows d = filter (\<lambda>r. row_date header di r = Some d) rows"

text \<open>The body of \<^verbatim>\<open>merged\<close> before the sort: the history rows, then the rows of
  \<^verbatim>\<open>new_recent\<close> by ascending date.\<close>

definition pre_sort :: "row \<Rightarrow> nat \<Rightarrow> date \<Rightarrow> row list \<Rightarrow> (date \<times> row) list \<Rightarrow> row list" where
  "pre_sort header di cutoff old_body nr =
     filter (is_history header di cutoff) old_body
       @ map (\<lambda>d. the (map_of nr d)) (sort (map fst nr))"

section \<open>Test data\<close>

text \<open>
  The command line and the file system of the examples: an old and a new table under
  fixed names, an output path that can be written, and 2024-01-06 as today's date.
\<close>

definition std_args :: args where
  "std_args = \<lparr>old_path = Some ''old.csv'', new_path = ''new.csv'', out_path = ''out.csv'',
                keep_days = 2, date_col = ''Date''\<rparr>"

definition std_env :: "csv_file \<Rightarrow> csv_file \<Rightarrow> env" where
  "std_env old_file new_file =
     \<lparr>fs = (\<lambda>p. if p = ''old.csv'' then old_file
                else if p = ''new.csv'' then new_file else Absent),
      can_write = (\<lambda>p. True), today = (2024, 1, 6)\<rparr>"

text \<open>The scenario of the specification.\<close>

definition scenario_old :: "row list" where
  "scenario_old = [[''Date'', ''Value''], [''2024-01-01'', ''1''], [''2024-01-02'', ''2''],
     [''2024-01-03'', ''3''], [''2024-01-04'', ''4''], [''2024-01-05'', ''5'']]"

definition scenario_new :: "row list" where
  "scenario_new = [[''Date'', ''Value''], [''2024-01-04'', ''40''], [''2024-01-05'', ''50''],
     [''2024-01-06'', ''60'']]"

definition scenario_env :: env where
  "scenario_env = std_env (File 70 (Inr scenario_old)) (File 50 (Inr scenario_new))"

definition scenario_out :: "row list" where
  "scenario_out = [[''Date'', ''Value''], [''2024-01-01'', ''1''], [''2024-01-02'', ''2''],
     [''2024-01-03'', ''3''], [''2024-01-04'', ''40''], [''2024-01-05'', ''50''],
     [''2024-01-06'', ''60'']]"

text \<open>
  A new table with two usable rows for 2024-01-05, a short row and a row with a blank
  date; an old table under another header, with rows out of order and a date that does
  not parse.
\<close>

definition dup_new :: "row list" where
  "dup_new = [[''Date'', ''Value''], [''2024-01-05'', ''1''], [''x''], ['' '', ''7''],
     [''2024-01-05 10:00'', ''2''], [''2024-01-04'', ''9'']]"

definition drift_old :: "row list" where
  "drift_old = [[''Day'', ''Value''], [''bad'', ''1''], [''2023-01-05'', ''z''],
     [''2022-01-05'', ''y''], [''2023-01-05'', ''a'']]"

definition dup_env :: env where
  "dup_env = std_env (File 60 (Inr drift_old)) (File 90 (Inr dup_new))"

definition dup_out :: "row list" where
  "dup_out = [[''Date'', ''Value''], [''2022-01-05'', ''y''], [''2023-01-05'', ''z''],
     [''2023-01-05'', ''a''], [''2024-01-04'', ''9''], [''2024-01-05 10:00'', ''2'']]"

text \<open>A date that does not parse, in the new table and in the old one.\<close>

definition bad_new :: "row list" where
  "bad_new = [[''Date'', ''Value''], [''2024-01-05'', ''1''], [''not-a-date'', ''2'']]"

definition bad_old :: "row list" where
  "bad_old = [[''Date'', ''Value''], [''not-a-date'', ''2''], [''2024-01-01'', ''1'']]"

section \<open>The loops, characterised\<close>

lemma keep_old_filter:
  "keep_old header di cutoff rows merged = merged @ filter (is_history header di cutoff) rows"
  by (induction rows arbitrary: merged)
     (auto simp: is_history_def row_date_def split: sum.splits option.splits)

lemma list_index_less: "list_index xs x = Inr i \<Longrightarrow> i < length xs \<and> xs ! i = x"
  by (induction xs arbitrary: i) (auto split: if_splits sum.splits)

lemma list_index_Inl: "list_index xs x = Inl e \<longleftrightarrow> x \<notin> set xs \<and> e = ValueError"
  by (induction xs) (auto split: if_splits sum.splits)

lemma append_recent_ok:
  "set ds \<subseteq> fst ` set nr \<Longrightarrow>
   append_recent nr ds merged = Inr (merged @ map (\<lambda>d. the (map_of nr d)) ds)"
proof (induction ds arbitrary: merged)
  case Nil
  then show ?case by simp
next
  case (Cons d ds)
  from Cons.prems have "d \<in> fst ` set nr" by simp
  then obtain r where "map_of nr d = Some r"
    by (metis domD dom_map_of_conv_image_fst)
  with Cons show ?case by simp
qed

lemma sort_keys_Inr:
  "sort_keys di body = Inr ks \<Longrightarrow> ks = map (key_of di) body"
  by (induction body arbitrary: ks) (auto simp: key_of_def split: sum.splits)

lemma sort_keys_ok:
  "\<forall>r\<in>set body. \<exists>d. parse_date_at di r = Inr (Some d) \<Longrightarrow>
   sort_keys di body = Inr (map (key_of di) body)"
  by (induction body) (auto simp: key_of_def split: sum.splits)

lemma insort_key_zip:
  "map snd (insort_key fst (f x, x) (zip (map f xs) xs)) = insort_key f x xs
   \<and> insort_key fst (f x, x) (zip (map f xs) xs) = zip (map f (insort_key f x xs)) (insort_key f x xs)"
  by (induction xs) auto

lemma sort_key_zip:
  "sort_key fst (zip (map f xs) xs) = zip (map f (sort_key f xs)) (sort_key f xs)"
  by (induction xs) (auto simp: insort_key_zip)

lemma sort_key_decorate: "map snd (sort_key fst (zip (map f xs) xs)) = sort_key f xs"
  by (simp add: sort_key_zip)

lemma index_new_map_of:
  "index_new header di cutoff rows acc = Inr nr \<Longrightarrow>
   map_of nr d =
     (if cutoff \<le> d \<and> usable_on header di rows d \<noteq> []
      then Some (last (usable_on header di rows d)) else map_of acc d)"
proof (induction rows arbitrary: acc)
  case Nil
  then show ?case by (simp add: usable_on_def)
next
  case (Cons row rows)
  show ?case
  proof (cases "row_date header di row")
    case None
    then have step: "index_new header di cutoff rows acc = Inr nr"
      using Cons.prems by (auto simp: row_date_def split: if_splits sum.splits option.splits)
    from None have "usable_on header di (row # rows) d = usable_on header di rows d"
      by (simp add: usable_on_def)
    with Cons.IH [OF step] show ?thesis by simp
  next
    case (Some d')
    then have len: "length row = length header" and pd: "parse_date_at di row = Inr (Some d')"
      by (auto simp: row_date_def split: if_splits sum.splits option.splits)
    show ?thesis
    proof (cases "cutoff \<le> d'")
      case True
      with len pd Cons.prems
      have step: "index_new header di cutoff rows (AList.update d' row acc) = Inr nr"
        by simp
      have nf: "usable_on header di (row # rows) d =
                  (if d' = d then row # usable_on header di rows d else usable_on header di rows d)"
        using Some by (auto simp: usable_on_def)
      from Cons.IH [OF step] nf True show ?thesis
        by (auto simp: update_conv')
    next
      case False
      with len pd Cons.prems
      have step: "index_new header di cutoff rows acc = Inr nr"
        by simp
      have nf: "usable_on header di (row # rows) d =
                  (if d' = d then row # usable_on header di rows d else usable_on header di rows d)"
        using Some by (auto simp: usable_on_def)
      from Cons.IH [OF step] nf False show ?thesis
        by auto
    qed
  qed
qed

lemma index_new_distinct:
  "index_new header di cutoff rows acc = Inr nr \<Longrightarrow> distinct (map fst acc) \<Longrightarrow>
   distinct (map fst nr)"
  by (induction rows arbitrary: acc)
     (auto simp: distinct_update split: if_splits sum.splits option.splits)

lemma index_new_ok:
  "\<forall>r\<in>set rows. length r = length header \<longrightarrow> (\<exists>k. parse_date_at di r = Inr k) \<Longrightarrow>
   \<exists>nr. index_new header di cutoff rows acc = Inr nr"
  by (induction rows arbitrary: acc) (auto split: sum.splits option.splits)

lemma index_new_Inl:
  "index_new header di cutoff rows acc = Inl x \<Longrightarrow>
   \<exists>r\<in>set rows. length r = length header \<and> parse_date_at di r = Inl x"
  by (induction rows arbitrary: acc) (auto split: if_splits sum.splits option.splits)

lemma index_new_raises:
  "r \<in> set rows \<Longrightarrow> length r = length header \<Longrightarrow> parse_date_at di r = Inl x \<Longrightarrow>
   \<exists>y. index_new header di cutoff rows acc = Inl y"
  by (induction rows arbitrary: acc) (auto split: if_splits sum.splits option.splits)

lemma index_new_keys:
  assumes "index_new header di cutoff rows [] = Inr nr"
  shows "k \<in> set (map fst nr) \<longleftrightarrow> cutoff \<le> k \<and> usable_on header di rows k \<noteq> []"
proof -
  have "k \<in> set (map fst nr) \<longleftrightarrow> map_of nr k \<noteq> None"
    by (simp add: map_of_eq_None_iff)
  also have "\<dots> \<longleftrightarrow> cutoff \<le> k \<and> usable_on header di rows k \<noteq> []"
    using index_new_map_of [OF assms, of k] by simp
  finally show ?thesis .
qed

lemma index_new_value:
  assumes "index_new header di cutoff rows [] = Inr nr" and "k \<in> set (map fst nr)"
  shows "the (map_of nr k) = last (usable_on header di rows k)"
  using index_new_map_of [OF assms(1), of k] index_new_keys [OF assms(1), of k] assms(2)
  by simp

lemma last_usable_on:
  "usable_on header di rows k \<noteq> [] \<Longrightarrow>
   last (usable_on header di rows k) \<in> set rows
   \<and> row_date header di (last (usable_on header di rows k)) = Some k"
proof -
  assume ne: "usable_on header di rows k \<noteq> []"
  then have "last (usable_on header di rows k) \<in> set (usable_on header di rows k)"
    by (rule last_in_set)
  then show ?thesis by (simp add: usable_on_def)
qed

lemma filter_keyed_map:
  "distinct ks \<Longrightarrow> \<forall>k\<in>set ks. f (g k) = Some k \<Longrightarrow>
   filter (\<lambda>r. f r = Some d) (map g ks) = (if d \<in> set ks then [g d] else [])"
  by (induction ks) auto

lemma filter_history:
  "filter (\<lambda>r. row_date header di r = Some d) (filter (is_history header di cutoff) rows)
     = (if d < cutoff then usable_on header di rows d else [])"
  by (induction rows) (auto simp: usable_on_def is_history_def)

lemma merge_body_Inr:
  assumes "index_new (new_rows ! 0) di cutoff (tl new_rows) [] = Inr nr"
  shows "merge_body new_rows old_rows di cutoff
           = Inr (new_rows ! 0 # pre_sort (new_rows ! 0) di cutoff (tl old_rows) nr)"
proof -
  have "set (sort (map fst nr)) \<subseteq> fst ` set nr" by simp
  from append_recent_ok [OF this] assms show ?thesis
    by (simp add: merge_body_def keep_old_filter pre_sort_def Let_def)
qed

lemma merge_body_Inl:
  "index_new (new_rows ! 0) di cutoff (tl new_rows) [] = Inl x \<Longrightarrow>
   merge_body new_rows old_rows di cutoff = Inl x"
  by (simp add: merge_body_def)

lemma pre_sort_dated:
  assumes "index_new header di cutoff rows [] = Inr nr"
    and "r \<in> set (pre_sort header di cutoff old_body nr)"
  shows "\<exists>d. row_date header di r = Some d"
proof -
  from assms(2) consider "r \<in> set old_body \<and> is_history header di cutoff r"
    | k where "k \<in> set (map fst nr)" "r = the (map_of nr k)"
    by (auto simp: pre_sort_def)
  then show ?thesis
  proof cases
    case 1
    then show ?thesis by (auto simp: is_history_def split: option.splits)
  next
    case 2
    with index_new_keys [OF assms(1), of k] index_new_value [OF assms(1), of k]
      last_usable_on [of header di rows k]
    show ?thesis by auto
  qed
qed

lemma pre_sort_filter:
  assumes "index_new header di cutoff rows [] = Inr nr"
  shows "filter (\<lambda>r. row_date header di r = Some d) (pre_sort header di cutoff old_body nr)
     = (if d < cutoff then usable_on header di old_body d
        else if usable_on header di rows d = [] then []
        else [last (usable_on header di rows d)])"
proof -
  let ?ks = "sort (map fst nr)"
  let ?g = "\<lambda>d. the (map_of nr d)"
  have dist: "distinct ?ks"
    using index_new_distinct [OF assms] by simp
  have keyed: "\<forall>k\<in>set ?ks. row_date header di (?g k) = Some k"
  proof
    fix k assume "k \<in> set ?ks"
    then have k: "k \<in> set (map fst nr)" by simp
    with index_new_keys [OF assms, of k] index_new_value [OF assms, of k]
      last_usable_on [of header di rows k]
    show "row_date header di (?g k) = Some k" by simp
  qed
  have mem: "d \<in> set ?ks \<longleftrightarrow> cutoff \<le> d \<and> usable_on header di rows d \<noteq> []"
    using index_new_keys [OF assms, of d] by simp
  have val: "d \<in> set ?ks \<Longrightarrow> ?g d = last (usable_on header di rows d)"
    using index_new_value [OF assms, of d] by simp
  have "filter (\<lambda>r. row_date header di r = Some d) (map ?g ?ks)
          = (if d \<in> set ?ks then [?g d] else [])"
    using dist keyed by (rule filter_keyed_map)
  then show ?thesis
    unfolding pre_sort_def filter_append filter_history
    using mem val by auto
qed

lemma parse_key_of: "parse_date_at di r = Inr (Some d) \<longleftrightarrow> key_of di r = Some d"
  by (auto simp: key_of_def split: sum.splits)

lemma row_date_parse:
  "row_date header di r = Some d \<longleftrightarrow> length r = length header \<and> parse_date_at di r = Inr (Some d)"
  by (auto simp: row_date_def split: sum.splits option.splits)

lemma sorted_by_date_ok:
  assumes "\<forall>r\<in>set body. \<exists>d. parse_date_at di r = Inr (Some d)"
  shows "sorted_by_date di body = Inr (sort_key (key_of di) body)"
proof -
  have "None \<notin> set (map (key_of di) body)"
    using assms by (auto simp: key_of_def)
  with sort_keys_ok [OF assms] show ?thesis
    by (simp add: sorted_by_date_def sort_key_decorate)
qed

lemma merge_rows_Inr:
  assumes "index_new (new_rows ! 0) di cutoff (tl new_rows) [] = Inr nr"
  shows "merge_rows new_rows old_rows di cutoff
           = Inr (new_rows ! 0 # sort_key (key_of di)
                    (pre_sort (new_rows ! 0) di cutoff (tl old_rows) nr))"
proof -
  have "\<forall>r\<in>set (pre_sort (new_rows ! 0) di cutoff (tl old_rows) nr).
          \<exists>d. parse_date_at di r = Inr (Some d)"
    using pre_sort_dated [OF assms] by (meson row_date_parse)
  from sorted_by_date_ok [OF this] merge_body_Inr [OF assms] show ?thesis
    by (simp add: merge_rows_def)
qed

lemma merge_rows_Inl:
  "index_new (new_rows ! 0) di cutoff (tl new_rows) [] = Inl x \<Longrightarrow>
   merge_rows new_rows old_rows di cutoff = Inl x"
  by (simp add: merge_rows_def merge_body_Inl)

lemma merge_rows_cases:
  obtains (ok) nr where "index_new (new_rows ! 0) di cutoff (tl new_rows) [] = Inr nr"
      "merge_body new_rows old_rows di cutoff
           = Inr (new_rows ! 0 # pre_sort (new_rows ! 0) di cutoff (tl old_rows) nr)"
      "merge_rows new_rows old_rows di cutoff
           = Inr (new_rows ! 0 # sort_key (key_of di)
                    (pre_sort (new_rows ! 0) di cutoff (tl old_rows) nr))"
  | (raise) x where "index_new (new_rows ! 0) di cutoff (tl new_rows) [] = Inl x"
      "merge_rows new_rows old_rows di cutoff = Inl x"
  by (cases "index_new (new_rows ! 0) di cutoff (tl new_rows) []")
     (auto simp: merge_rows_Inl merge_rows_Inr merge_body_Inr)

section \<open>The run as a whole\<close>

lemma main_success:
  assumes "read_csv e (new_path a) = Inr new_rows" and "new_rows \<noteq> []"
    and "list_index (new_rows ! 0) (date_col a) = Inr di"
    and "load_old a e (new_rows ! 0) = Inr (old_rows, warn)"
    and "date_sub_days (today e) (keep_days a) = Inr cutoff"
    and "merge_rows new_rows old_rows di cutoff = Inr merged"
    and "can_write e (out_path a)"
  shows "main a e = \<lparr>exit_code = 0, stderr = warn, written = Some merged\<rparr>"
  using assms by (simp add: main_def)

lemma main_written:
  assumes "written (main a e) = Some out"
  obtains new_rows di old_rows warn cutoff where
    "read_csv e (new_path a) = Inr new_rows" "new_rows \<noteq> []"
    "list_index (new_rows ! 0) (date_col a) = Inr di"
    "load_old a e (new_rows ! 0) = Inr (old_rows, warn)"
    "date_sub_days (today e) (keep_days a) = Inr cutoff"
    "merge_rows new_rows old_rows di cutoff = Inr out"
    "can_write e (out_path a)"
  using assms unfolding main_def
  by (auto simp: sys_exit_def uncaught_def Let_def split: sum.splits if_splits prod.splits)

lemma main_exit_code:
  "exit_code (main a e) = 0 \<longleftrightarrow> written (main a e) \<noteq> None"
  unfolding main_def
  by (auto simp: sys_exit_def uncaught_def Let_def split: sum.splits if_splits prod.splits)

lemma merge_rows_out:
  assumes "merge_rows new_rows old_rows di cutoff = Inr out"
  obtains nr where "index_new (new_rows ! 0) di cutoff (tl new_rows) [] = Inr nr"
    "merge_body new_rows old_rows di cutoff
       = Inr (new_rows ! 0 # pre_sort (new_rows ! 0) di cutoff (tl old_rows) nr)"
    "out = new_rows ! 0 # sort_key (key_of di) (pre_sort (new_rows ! 0) di cutoff (tl old_rows) nr)"
  using assms by (cases rule: merge_rows_cases [of new_rows di cutoff old_rows]) auto

lemma sorted_body_filter:
  assumes "index_new header di cutoff rows [] = Inr nr"
  shows "filter (\<lambda>r. parse_date_at di r = Inr (Some d))
           (sort_key (key_of di) (pre_sort header di cutoff old_body nr))
     = (if d < cutoff then usable_on header di old_body d
        else if usable_on header di rows d = [] then []
        else [last (usable_on header di rows d)])"
proof -
  let ?pre = "pre_sort header di cutoff old_body nr"
  have eq: "filter (\<lambda>r. parse_date_at di r = Inr (Some d)) ?pre
          = filter (\<lambda>r. row_date header di r = Some d) ?pre"
  proof (rule filter_cong [OF refl])
    fix r assume "r \<in> set ?pre"
    from pre_sort_dated [OF assms this] obtain d' where "row_date header di r = Some d'" ..
    then show "(parse_date_at di r = Inr (Some d)) = (row_date header di r = Some d)"
      by (auto simp: row_date_parse)
  qed
  have "filter (\<lambda>r. parse_date_at di r = Inr (Some d)) (sort_key (key_of di) ?pre)
          = filter (\<lambda>r. key_of di r = Some d) (sort_key (key_of di) ?pre)"
    by (simp add: parse_key_of)
  also have "\<dots> = filter (\<lambda>r. key_of di r = Some d) ?pre"
    by (rule sort_key_stable)
  also have "\<dots> = filter (\<lambda>r. parse_date_at di r = Inr (Some d)) ?pre"
    by (simp add: parse_key_of)
  finally show ?thesis
    by (simp add: eq pre_sort_filter [OF assms])
qed

lemma sorted_Some: "sorted (map Some ks) \<Longrightarrow> sorted ks"
  by (induction ks) auto

lemma sorted_body_dates:
  assumes "index_new header di cutoff rows [] = Inr nr"
  shows "\<exists>ks. map (parse_date_at di) (sort_key (key_of di) (pre_sort header di cutoff old_body nr))
              = map (\<lambda>d. Inr (Some d)) ks \<and> sorted ks"
proof -
  let ?body = "sort_key (key_of di) (pre_sort header di cutoff old_body nr)"
  let ?ks = "map (\<lambda>r. the (key_of di r)) ?body"
  have dated: "\<forall>r\<in>set ?body. \<exists>d. parse_date_at di r = Inr (Some d)"
    using pre_sort_dated [OF assms] by (auto simp: row_date_parse)
  then have 1: "map (parse_date_at di) ?body = map (\<lambda>d. Inr (Some d)) ?ks"
    by (auto simp: key_of_def)
  from dated have eq: "map (key_of di) ?body = map Some ?ks"
    by (auto simp: key_of_def)
  have "sorted (map (key_of di) ?body)"
    by (rule sorted_sort_key)
  then have "sorted (map Some ?ks)"
    by (simp only: eq)
  then have "sorted ?ks"
    by (rule sorted_Some)
  with 1 show ?thesis by blast
qed

lemma run_output:
  assumes "read_csv e (new_path a) = Inr new_rows"
    and "list_index (new_rows ! 0) (date_col a) = Inr di"
    and "load_old a e (new_rows ! 0) = Inr (old_rows, warn)"
    and "date_sub_days (today e) (keep_days a) = Inr cutoff"
    and "written (main a e) = Some out"
  obtains nr where "index_new (new_rows ! 0) di cutoff (tl new_rows) [] = Inr nr"
    "merge_body new_rows old_rows di cutoff
       = Inr (new_rows ! 0 # pre_sort (new_rows ! 0) di cutoff (tl old_rows) nr)"
    "out = new_rows ! 0 # sort_key (key_of di) (pre_sort (new_rows ! 0) di cutoff (tl old_rows) nr)"
proof -
  from main_written [OF assms(5)] assms(1-4)
  have "merge_rows new_rows old_rows di cutoff = Inr out"
    by (metis Inr_inject prod.inject)
  from merge_rows_out [OF this] that show ?thesis by metis
qed

lemma index_new_total:
  "index_new header di cutoff rows acc = Inr nr \<Longrightarrow> r \<in> set rows \<Longrightarrow>
   length r = length header \<Longrightarrow> \<exists>k. parse_date_at di r = Inr k"
  by (induction rows arbitrary: acc) (auto split: if_splits sum.splits option.splits)

lemma not_isl_iff: "\<not> isl x \<longleftrightarrow> (\<exists>k. x = Inr k)"
  by (cases x) auto

lemma list_index_ok: "x \<in> set xs \<Longrightarrow> \<exists>i. list_index xs x = Inr i"
  by (induction xs) (auto split: sum.splits)

lemma merge_rows_old_header:
  "old_rows \<noteq> [] \<Longrightarrow>
   merge_rows new_rows old_rows di cutoff = merge_rows new_rows (h # tl old_rows) di cutoff"
  by (cases "index_new (new_rows ! 0) di cutoff (tl new_rows) []")
     (simp_all add: merge_rows_def merge_body_def Let_def)

lemma load_old_loaded:
  assumes "old_path a = Some p" and "p \<noteq> []" and "fs e p = File n (Inr old_rows)"
    and "0 < n" and "old_rows \<noteq> []"
  shows "load_old a e header
           = Inr (old_rows, if old_rows ! 0 \<noteq> header then [headers_differ] else [])"
  using assms by (simp add: load_old_def path_exists_def getsize_def read_csv_def)

lemma list_index_missing: "x \<notin> set xs \<Longrightarrow> list_index xs x = Inl ValueError"
  by (induction xs) auto

lemma header_only:
  "merge_rows [header] old_rows di cutoff
     = Inr (header # sort_key (key_of di) (filter (is_history header di cutoff) (tl old_rows)))"
proof -
  have nr: "index_new ([header] ! 0) di cutoff (tl [header]) [] = Inr []" by simp
  from merge_rows_Inr [OF nr, of old_rows] show ?thesis
    by (simp add: pre_sort_def)
qed

section \<open>The test data, evaluated\<close>

lemma scenario_new_read: "read_csv scenario_env (new_path std_args) = Inr scenario_new"
  by code_simp

lemma scenario_index: "list_index (scenario_new ! 0) (date_col std_args) = Inr 0"
  by code_simp

lemma scenario_old_read: "load_old std_args scenario_env (scenario_new ! 0) = Inr (scenario_old, [])"
  by code_simp

lemma scenario_cutoff: "date_sub_days (today scenario_env) (keep_days std_args) = Inr (2024, 1, 4)"
  by code_simp

lemma scenario_written: "written (main std_args scenario_env) = Some scenario_out"
  by code_simp

lemma dup_new_read: "read_csv dup_env (new_path std_args) = Inr dup_new"
  by code_simp

lemma dup_index: "list_index (dup_new ! 0) (date_col std_args) = Inr 0"
  by code_simp

lemma dup_old_read: "load_old std_args dup_env (dup_new ! 0) = Inr (drift_old, [headers_differ])"
  by code_simp

lemma dup_cutoff: "date_sub_days (today dup_env) (keep_days std_args) = Inr (2024, 1, 4)"
  by code_simp

lemma dup_written: "written (main std_args dup_env) = Some dup_out"
  by code_simp

lemma dup_dates:
  "map (parse_date_at 0) (filter (\<lambda>r. length r = length (dup_new ! 0)) (tl dup_new))
     = [Inr (Some (2024, 1, 5)), Inr None, Inr (Some (2024, 1, 5)), Inr (Some (2024, 1, 4))]"
  by code_simp

lemma dup_no_raise:
  "\<forall>r\<in>set (tl dup_new). length r = length (dup_new ! 0) \<longrightarrow> \<not> isl (parse_date_at 0 r)"
  by code_simp

section \<open>The claims\<close>

text \<open>
  C10. The date column's index is the position of the column name in the new header, so
  it is below the header's length; a row that passed the field-count check has the
  header's length, so \<^verbatim>\<open>row[di]\<close> is in range and no IndexError is raised where the row's
  date is parsed.
\<close>

theorem date_index_in_bounds:
  assumes "list_index header col = Inr di" and "length row = length header"
  shows "di < length header \<and> di < length row \<and> getitem row di = Inr (row ! di)
         \<and> parse_date_at di row = parse_date (row ! di)"
  using assms list_index_less [OF assms(1)] by (simp add: getitem_def parse_date_at_def)

theorem date_index_in_bounds_witness:
  "list_index [''Date'', ''Value''] ''Date'' = Inr 0
   \<and> length [''2024-01-01'', ''1''] = length [''Date'', ''Value'']
   \<and> getitem [''2024-01-01'', ''1''] 0 = Inr ''2024-01-01''
   \<and> parse_date_at 0 [''2024-01-01'', ''1''] = parse_date ''2024-01-01''"
proof -
  have h: "list_index [''Date'', ''Value''] ''Date'' = Inr 0" by simp
  have l: "length [''2024-01-01'', ''1''] = length [''Date'', ''Value'']" by simp
  from date_index_in_bounds [OF h l] h l show ?thesis by simp
qed

text \<open>
  C9. In every successful run (exit status 0) a table is written, and each of its rows
  after the header has as many fields as the header.
\<close>

theorem output_field_counts:
  assumes "exit_code (main a e) = 0"
  shows "\<exists>header body. written (main a e) = Some (header # body)
           \<and> (\<forall>r\<in>set body. length r = length header)"
proof -
  from assms obtain out where w: "written (main a e) = Some out"
    by (auto simp: main_exit_code)
  from main_written [OF w] obtain new_rows di old_rows cutoff
    where m: "merge_rows new_rows old_rows di cutoff = Inr out" by metis
  from merge_rows_out [OF m] obtain nr
    where nr: "index_new (new_rows ! 0) di cutoff (tl new_rows) [] = Inr nr"
      and out: "out = new_rows ! 0 # sort_key (key_of di)
                  (pre_sort (new_rows ! 0) di cutoff (tl old_rows) nr)" by metis
  have "\<forall>r\<in>set (sort_key (key_of di) (pre_sort (new_rows ! 0) di cutoff (tl old_rows) nr)).
          length r = length (new_rows ! 0)"
    using pre_sort_dated [OF nr] by (auto simp: row_date_parse)
  with w out show ?thesis by blast
qed

theorem output_field_counts_witness:
  "exit_code (main std_args scenario_env) = 0
   \<and> (\<exists>header body. written (main std_args scenario_env) = Some (header # body)
         \<and> (\<forall>r\<in>set body. length r = length header))"
proof -
  have h: "exit_code (main std_args scenario_env) = 0" by code_simp
  from output_field_counts [OF h] h show ?thesis by blast
qed

text \<open>
  C2. The scenario of the specification: the cutoff is 2024-01-04 and the table written
  is the header, the old rows of 2024-01-01 to 2024-01-03 and the new rows of 2024-01-04
  to 2024-01-06, in this order.
\<close>

theorem scenario_output:
  "date_sub_days (today scenario_env) (keep_days std_args) = Inr (2024, 1, 4)
   \<and> main std_args scenario_env
       = \<lparr>exit_code = 0, stderr = [],
          written = Some [[''Date'', ''Value''], [''2024-01-01'', ''1''], [''2024-01-02'', ''2''],
            [''2024-01-03'', ''3''], [''2024-01-04'', ''40''], [''2024-01-05'', ''50''],
            [''2024-01-06'', ''60'']]\<rparr>"
  by code_simp

text \<open>
  C1, as the code has it. A date that does not parse is dropped without a word where it
  stands in the old table (first run); in the new table the ValueError of
  \<^verbatim>\<open>parse_date\<close> is not caught, and the run ends with a traceback, exit status 1 and no
  output (second run).
\<close>

theorem unparsable_date_old_and_new:
  "main std_args (std_env (File 50 (Inr bad_old)) (File 50 (Inr scenario_new)))
     = \<lparr>exit_code = 0, stderr = [],
        written = Some [[''Date'', ''Value''], [''2024-01-01'', ''1''], [''2024-01-04'', ''40''],
          [''2024-01-05'', ''50''], [''2024-01-06'', ''60'']]\<rparr>
   \<and> main std_args (std_env Absent (File 50 (Inr bad_new)))
     = \<lparr>exit_code = 1, stderr = [Traceback ValueError], written = None\<rparr>"
  by code_simp

text \<open>
  C7, as stated: exit status 2 when the new file cannot be opened. It fails where the
  file is absent: the status is 1.
\<close>

theorem unreadable_new_file_not_2:
  "read_csv (std_env Absent Absent) (new_path std_args) = Inl OSError
   \<and> exit_code (main std_args (std_env Absent Absent)) = 1
   \<and> exit_code (main std_args (std_env Absent Absent)) \<noteq> 2"
  by code_simp

text \<open>
  C7, amended. When the new file cannot be opened or read, the exception is not caught:
  the run ends with exit status 1 and a traceback on the error stream, and nothing is
  written.
\<close>

theorem unreadable_new_file:
  assumes "read_csv e (new_path a) = Inl x"
  shows "main a e = \<lparr>exit_code = 1, stderr = [Traceback x], written = None\<rparr>"
  using assms by (simp add: main_def uncaught_def)

theorem unreadable_new_file_witness:
  "read_csv (std_env Absent Absent) (new_path std_args) = Inl OSError
   \<and> main std_args (std_env Absent Absent)
       = \<lparr>exit_code = 1, stderr = [Traceback OSError], written = None\<rparr>"
proof -
  have h: "read_csv (std_env Absent Absent) (new_path std_args) = Inl OSError"
    by code_simp
  from h unreadable_new_file [OF h] show ?thesis by - (intro conjI; assumption)
qed

text \<open>
  C4. In a successful run every row of the output body has a date and the dates are in
  non-decreasing order from the first row to the last. The sort is stable: for every key
  the rows with that key stand in the output in the order they had in \<^verbatim>\<open>merged\<close> before
  the sort, which is the history rows followed by the rows of the recent window
  (\<open>pre_sort\<close>).
\<close>

theorem output_sorted_stable:
  assumes "read_csv e (new_path a) = Inr new_rows"
    and "list_index (new_rows ! 0) (date_col a) = Inr di"
    and "load_old a e (new_rows ! 0) = Inr (old_rows, warn)"
    and "date_sub_days (today e) (keep_days a) = Inr cutoff"
    and "written (main a e) = Some out"
  shows "\<exists>nr body.
           index_new (new_rows ! 0) di cutoff (tl new_rows) [] = Inr nr
         \<and> merge_body new_rows old_rows di cutoff
             = Inr (new_rows ! 0 # pre_sort (new_rows ! 0) di cutoff (tl old_rows) nr)
         \<and> out = new_rows ! 0 # body
         \<and> (\<exists>ks. map (parse_date_at di) body = map (\<lambda>d. Inr (Some d)) ks \<and> sorted ks)
         \<and> (\<forall>k. filter (\<lambda>r. parse_date_at di r = k) body
                  = filter (\<lambda>r. parse_date_at di r = k)
                      (pre_sort (new_rows ! 0) di cutoff (tl old_rows) nr))"
proof -
  from run_output [OF assms] obtain nr
    where nr: "index_new (new_rows ! 0) di cutoff (tl new_rows) [] = Inr nr"
      and mb: "merge_body new_rows old_rows di cutoff
                 = Inr (new_rows ! 0 # pre_sort (new_rows ! 0) di cutoff (tl old_rows) nr)"
      and out: "out = new_rows ! 0 # sort_key (key_of di)
                  (pre_sort (new_rows ! 0) di cutoff (tl old_rows) nr)"
    by metis
  let ?pre = "pre_sort (new_rows ! 0) di cutoff (tl old_rows) nr"
  let ?body = "sort_key (key_of di) ?pre"
  have dated: "\<forall>r\<in>set ?pre. \<exists>d. parse_date_at di r = Inr (Some d)"
    using pre_sort_dated [OF nr] by (auto simp: row_date_parse)
  have stable: "filter (\<lambda>r. parse_date_at di r = k) ?body
                  = filter (\<lambda>r. parse_date_at di r = k) ?pre" for k
  proof (cases k)
    case (Inr ko)
    show ?thesis
    proof (cases ko)
      case (Some d)
      have "filter (\<lambda>r. parse_date_at di r = Inr (Some d)) ?body
              = filter (\<lambda>r. key_of di r = Some d) ?body"
        by (simp add: parse_key_of)
      also have "\<dots> = filter (\<lambda>r. key_of di r = Some d) ?pre"
        by (rule sort_key_stable)
      also have "\<dots> = filter (\<lambda>r. parse_date_at di r = Inr (Some d)) ?pre"
        by (simp add: parse_key_of)
      finally show ?thesis using Inr Some by simp
    next
      case None
      have "filter (\<lambda>r. parse_date_at di r = k) ?body = []"
        using dated Inr None by (auto simp: filter_empty_conv)
      moreover have "filter (\<lambda>r. parse_date_at di r = k) ?pre = []"
        using dated Inr None by (auto simp: filter_empty_conv)
      ultimately show ?thesis by simp
    qed
  next
    case (Inl x)
    have "filter (\<lambda>r. parse_date_at di r = k) ?body = []"
      using dated Inl by (auto simp: filter_empty_conv)
    moreover have "filter (\<lambda>r. parse_date_at di r = k) ?pre = []"
      using dated Inl by (auto simp: filter_empty_conv)
    ultimately show ?thesis by simp
  qed
  from nr mb out sorted_body_dates [OF nr, of "tl old_rows"] stable
  show ?thesis by blast
qed

theorem output_sorted_stable_witness:
  "read_csv dup_env (new_path std_args) = Inr dup_new
   \<and> list_index (dup_new ! 0) (date_col std_args) = Inr 0
   \<and> load_old std_args dup_env (dup_new ! 0) = Inr (drift_old, [headers_differ])
   \<and> date_sub_days (today dup_env) (keep_days std_args) = Inr (2024, 1, 4)
   \<and> written (main std_args dup_env) = Some dup_out
   \<and> (\<exists>nr body.
           index_new (dup_new ! 0) 0 (2024, 1, 4) (tl dup_new) [] = Inr nr
         \<and> merge_body dup_new drift_old 0 (2024, 1, 4)
             = Inr (dup_new ! 0 # pre_sort (dup_new ! 0) 0 (2024, 1, 4) (tl drift_old) nr)
         \<and> dup_out = dup_new ! 0 # body
         \<and> (\<exists>ks. map (parse_date_at 0) body = map (\<lambda>d. Inr (Some d)) ks \<and> sorted ks)
         \<and> (\<forall>k. filter (\<lambda>r. parse_date_at 0 r = k) body
                  = filter (\<lambda>r. parse_date_at 0 r = k)
                      (pre_sort (dup_new ! 0) 0 (2024, 1, 4) (tl drift_old) nr)))"
proof -
  note c = output_sorted_stable [OF dup_new_read dup_index dup_old_read dup_cutoff dup_written]
  from dup_new_read dup_index dup_old_read dup_cutoff dup_written c
  show ?thesis by - (intro conjI; assumption)
qed

text \<open>
  C3. In a successful run, for a date at or after the cutoff that has a usable row in the
  old table and in the new one, the output has one row with that date, the new table's
  (its last usable row with the date); the old table's row is not taken. For a date
  before the cutoff the output rows with that date are the usable rows of the old table
  with that date, unchanged and in their order, whether or not the new table has the
  date.
\<close>

theorem new_wins_old_kept:
  assumes "read_csv e (new_path a) = Inr new_rows"
    and "list_index (new_rows ! 0) (date_col a) = Inr di"
    and "load_old a e (new_rows ! 0) = Inr (old_rows, warn)"
    and "date_sub_days (today e) (keep_days a) = Inr cutoff"
    and "written (main a e) = Some out"
  shows "(cutoff \<le> d \<and> usable_on (new_rows ! 0) di (tl old_rows) d \<noteq> []
            \<and> usable_on (new_rows ! 0) di (tl new_rows) d \<noteq> []
          \<longrightarrow> filter (\<lambda>r. parse_date_at di r = Inr (Some d)) (tl out)
                = [last (usable_on (new_rows ! 0) di (tl new_rows) d)])
       \<and> (d' < cutoff
          \<longrightarrow> filter (\<lambda>r. parse_date_at di r = Inr (Some d')) (tl out)
                = usable_on (new_rows ! 0) di (tl old_rows) d')"
proof -
  from run_output [OF assms] obtain nr
    where nr: "index_new (new_rows ! 0) di cutoff (tl new_rows) [] = Inr nr"
      and out: "out = new_rows ! 0 # sort_key (key_of di)
                  (pre_sort (new_rows ! 0) di cutoff (tl old_rows) nr)"
    by metis
  from out sorted_body_filter [OF nr, of d "tl old_rows"]
    sorted_body_filter [OF nr, of d' "tl old_rows"]
  show ?thesis by auto
qed

theorem new_wins_old_kept_witness:
  "read_csv scenario_env (new_path std_args) = Inr scenario_new
   \<and> list_index (scenario_new ! 0) (date_col std_args) = Inr 0
   \<and> load_old std_args scenario_env (scenario_new ! 0) = Inr (scenario_old, [])
   \<and> date_sub_days (today scenario_env) (keep_days std_args) = Inr (2024, 1, 4)
   \<and> written (main std_args scenario_env) = Some scenario_out
   \<and> ((2024, 1, 4) :: date) \<le> (2024, 1, 4)
   \<and> usable_on (scenario_new ! 0) 0 (tl scenario_old) (2024, 1, 4) = [[''2024-01-04'', ''4'']]
   \<and> usable_on (scenario_new ! 0) 0 (tl scenario_new) (2024, 1, 4) = [[''2024-01-04'', ''40'']]
   \<and> filter (\<lambda>r. parse_date_at 0 r = Inr (Some (2024, 1, 4))) (tl scenario_out)
       = [last (usable_on (scenario_new ! 0) 0 (tl scenario_new) (2024, 1, 4))]
   \<and> ((2024, 1, 1) :: date) < (2024, 1, 4)
   \<and> usable_on (scenario_new ! 0) 0 (tl scenario_old) (2024, 1, 1) = [[''2024-01-01'', ''1'']]
   \<and> filter (\<lambda>r. parse_date_at 0 r = Inr (Some (2024, 1, 1))) (tl scenario_out)
       = usable_on (scenario_new ! 0) 0 (tl scenario_old) (2024, 1, 1)"
proof -
  note c = new_wins_old_kept [OF scenario_new_read scenario_index scenario_old_read
      scenario_cutoff scenario_written, of "(2024, 1, 4)" "(2024, 1, 1)"]
  have a1: "((2024, 1, 4) :: date) \<le> (2024, 1, 4)" by simp
  have a2: "usable_on (scenario_new ! 0) 0 (tl scenario_old) (2024, 1, 4)
              = [[''2024-01-04'', ''4'']]" by code_simp
  have a3: "usable_on (scenario_new ! 0) 0 (tl scenario_new) (2024, 1, 4)
              = [[''2024-01-04'', ''40'']]" by code_simp
  have p1: "(2024, 1, 4) \<le> ((2024, 1, 4) :: date)
            \<and> usable_on (scenario_new ! 0) 0 (tl scenario_old) (2024, 1, 4) \<noteq> []
            \<and> usable_on (scenario_new ! 0) 0 (tl scenario_new) (2024, 1, 4) \<noteq> []"
    by (simp only: a1 a2 a3) simp
  note r1 = c [THEN conjunct1, THEN mp, OF p1]
  have b1: "((2024, 1, 1) :: date) < (2024, 1, 4)" by simp
  have b2: "usable_on (scenario_new ! 0) 0 (tl scenario_old) (2024, 1, 1)
              = [[''2024-01-01'', ''1'']]" by code_simp
  note r2 = c [THEN conjunct2, THEN mp, OF b1]
  from scenario_new_read scenario_index scenario_old_read scenario_cutoff scenario_written
    a1 a2 a3 r1 b1 b2 r2
  show ?thesis by - (intro conjI; assumption)
qed

text \<open>
  C5. When no date of the new table raises, the run succeeds however many usable rows of
  the new table share a date, and for a date at or after the cutoff the output has no
  row with that date when the new table has no usable row for it, and otherwise one
  row: the last usable row of the new table with that date.
\<close>

theorem recent_last_wins:
  assumes "read_csv e (new_path a) = Inr new_rows" and "new_rows \<noteq> []"
    and "list_index (new_rows ! 0) (date_col a) = Inr di"
    and "load_old a e (new_rows ! 0) = Inr (old_rows, warn)"
    and "date_sub_days (today e) (keep_days a) = Inr cutoff"
    and "can_write e (out_path a)"
    and "\<forall>r\<in>set (tl new_rows). length r = length (new_rows ! 0)
            \<longrightarrow> \<not> isl (parse_date_at di r)"
    and "cutoff \<le> d"
  shows "\<exists>body. main a e = \<lparr>exit_code = 0, stderr = warn, written = Some (new_rows ! 0 # body)\<rparr>
           \<and> filter (\<lambda>r. parse_date_at di r = Inr (Some d)) body
               = (if usable_on (new_rows ! 0) di (tl new_rows) d = [] then []
                  else [last (usable_on (new_rows ! 0) di (tl new_rows) d)])"
proof -
  from assms(7) have "\<forall>r\<in>set (tl new_rows). length r = length (new_rows ! 0)
                        \<longrightarrow> (\<exists>k. parse_date_at di r = Inr k)"
    by (simp add: not_isl_iff)
  from index_new_ok [OF this] obtain nr
    where nr: "index_new (new_rows ! 0) di cutoff (tl new_rows) [] = Inr nr" by blast
  let ?body = "sort_key (key_of di) (pre_sort (new_rows ! 0) di cutoff (tl old_rows) nr)"
  from merge_rows_Inr [OF nr]
  have "merge_rows new_rows old_rows di cutoff = Inr (new_rows ! 0 # ?body)" .
  from main_success [OF assms(1-5) this assms(6)]
  have "main a e = \<lparr>exit_code = 0, stderr = warn, written = Some (new_rows ! 0 # ?body)\<rparr>" .
  moreover from sorted_body_filter [OF nr, of d "tl old_rows"] assms(8)
  have "filter (\<lambda>r. parse_date_at di r = Inr (Some d)) ?body
               = (if usable_on (new_rows ! 0) di (tl new_rows) d = [] then []
                  else [last (usable_on (new_rows ! 0) di (tl new_rows) d)])"
    by auto
  ultimately show ?thesis by blast
qed

theorem recent_last_wins_witness:
  "read_csv dup_env (new_path std_args) = Inr dup_new
   \<and> dup_new \<noteq> []
   \<and> list_index (dup_new ! 0) (date_col std_args) = Inr 0
   \<and> load_old std_args dup_env (dup_new ! 0) = Inr (drift_old, [headers_differ])
   \<and> date_sub_days (today dup_env) (keep_days std_args) = Inr (2024, 1, 4)
   \<and> can_write dup_env (out_path std_args)
   \<and> map (parse_date_at 0) (filter (\<lambda>r. length r = length (dup_new ! 0)) (tl dup_new))
       = [Inr (Some (2024, 1, 5)), Inr None, Inr (Some (2024, 1, 5)), Inr (Some (2024, 1, 4))]
   \<and> ((2024, 1, 4) :: date) \<le> (2024, 1, 5)
   \<and> usable_on (dup_new ! 0) 0 (tl dup_new) (2024, 1, 5)
       = [[''2024-01-05'', ''1''], [''2024-01-05 10:00'', ''2'']]
   \<and> (\<exists>body. main std_args dup_env
                = \<lparr>exit_code = 0, stderr = [headers_differ], written = Some (dup_new ! 0 # body)\<rparr>
           \<and> filter (\<lambda>r. parse_date_at 0 r = Inr (Some (2024, 1, 5))) body
               = (if usable_on (dup_new ! 0) 0 (tl dup_new) (2024, 1, 5) = [] then []
                  else [last (usable_on (dup_new ! 0) 0 (tl dup_new) (2024, 1, 5))]))"
proof -
  have ne: "dup_new \<noteq> []" by code_simp
  have w: "can_write dup_env (out_path std_args)" by code_simp
  have le: "((2024, 1, 4) :: date) \<le> (2024, 1, 5)" by simp
  have u: "usable_on (dup_new ! 0) 0 (tl dup_new) (2024, 1, 5)
             = [[''2024-01-05'', ''1''], [''2024-01-05 10:00'', ''2'']]" by code_simp
  note c = recent_last_wins [OF dup_new_read ne dup_index dup_old_read dup_cutoff w
      dup_no_raise le]
  from dup_new_read ne dup_index dup_old_read dup_cutoff w dup_dates le u c
  show ?thesis by - (intro conjI; assumption)
qed

text \<open>
  C8. When the old table is loaded and its header is not the new table's, the warning is
  printed and nothing else changes: the run is the run on the same old table under the
  new header, with the warning put first on the error stream. The header written is
  the new table's, and the run ends with exit status 0 when the cutoff is in range, no
  date of the new table raises and the output can be written.
\<close>

theorem header_mismatch_warns:
  assumes "read_csv e (new_path a) = Inr new_rows" and "new_rows \<noteq> []"
    and "list_index (new_rows ! 0) (date_col a) = Inr di"
    and "old_path a = Some p" and "p \<noteq> []"
    and "fs e p = File n (Inr old_rows)" and "0 < n" and "old_rows \<noteq> []"
    and "old_rows ! 0 \<noteq> new_rows ! 0"
  shows "(let e' = e\<lparr>fs := (fs e)(p := File n (Inr (new_rows ! 0 # tl old_rows)))\<rparr>
          in main a e = (main a e')\<lparr>stderr := headers_differ # stderr (main a e')\<rparr>)
       \<and> (\<forall>out. written (main a e) = Some out \<longrightarrow> hd out = new_rows ! 0)
       \<and> (\<not> isl (date_sub_days (today e) (keep_days a))
            \<and> (\<forall>r\<in>set (tl new_rows). length r = length (new_rows ! 0)
                   \<longrightarrow> \<not> isl (parse_date_at di r))
            \<and> can_write e (out_path a)
          \<longrightarrow> (\<exists>body. main a e = \<lparr>exit_code = 0, stderr = [headers_differ],
                                     written = Some (new_rows ! 0 # body)\<rparr>))"
proof -
  let ?h = "new_rows ! 0"
  let ?e' = "e\<lparr>fs := (fs e)(p := File n (Inr (?h # tl old_rows)))\<rparr>"
  have lo: "load_old a e ?h = Inr (old_rows, [headers_differ])"
    using load_old_loaded [OF assms(4-8), of ?h] assms(9) by simp
  have neq: "new_path a \<noteq> p"
    using assms(1,6,9) by (auto simp: read_csv_def)
  then have new': "read_csv ?e' (new_path a) = Inr new_rows"
    using assms(1) by (simp add: read_csv_def)
  have lo': "load_old a ?e' ?h = Inr (?h # tl old_rows, [])"
    using load_old_loaded [of a p ?e' n "?h # tl old_rows" ?h] assms(4,5,7) by simp
  have mr: "merge_rows new_rows (?h # tl old_rows) di cutoff
              = merge_rows new_rows old_rows di cutoff" for cutoff
    using merge_rows_old_header [OF assms(8)] by simp
  have 1: "main a e = (main a ?e')\<lparr>stderr := headers_differ # stderr (main a ?e')\<rparr>"
  proof (cases "date_sub_days (today e) (keep_days a)")
    case (Inl x)
    with assms(1-3) new' lo lo' show ?thesis
      by (simp add: main_def uncaught_def)
  next
    case cutoff: (Inr cutoff)
    show ?thesis
    proof (cases "merge_rows new_rows old_rows di cutoff")
      case (Inl x)
      with cutoff assms(1-3) new' lo lo' show ?thesis
        by (simp add: main_def uncaught_def mr)
    next
      case (Inr merged)
      with cutoff assms(1-3) new' lo lo' show ?thesis
        by (simp add: main_def uncaught_def mr)
    qed
  qed
  have 2: "hd out = ?h" if "written (main a e) = Some out" for out
  proof -
    from main_written [OF that] obtain new_rows' di' old_rows' cutoff
      where r: "read_csv e (new_path a) = Inr new_rows'"
        and m: "merge_rows new_rows' old_rows' di' cutoff = Inr out" by metis
    from r assms(1) have eq: "new_rows' = new_rows" by simp
    from merge_rows_out [OF m] obtain body where "out = new_rows' ! 0 # body" by metis
    with eq show ?thesis by simp
  qed
  have 3: "\<exists>body. main a e = \<lparr>exit_code = 0, stderr = [headers_differ],
                                     written = Some (?h # body)\<rparr>"
    if c: "\<not> isl (date_sub_days (today e) (keep_days a))"
      and nr: "\<forall>r\<in>set (tl new_rows). length r = length ?h \<longrightarrow> \<not> isl (parse_date_at di r)"
      and w: "can_write e (out_path a)"
  proof -
    from c obtain cutoff where cutoff: "date_sub_days (today e) (keep_days a) = Inr cutoff"
      by (auto simp: not_isl_iff)
    from nr have "\<forall>r\<in>set (tl new_rows). length r = length ?h
                    \<longrightarrow> (\<exists>k. parse_date_at di r = Inr k)"
      by (simp add: not_isl_iff)
    from index_new_ok [OF this] obtain nr
      where "index_new ?h di cutoff (tl new_rows) [] = Inr nr" by blast
    from main_success [OF assms(1-3) lo cutoff merge_rows_Inr [OF this] w]
    show ?thesis by simp
  qed
  from 1 2 3 show ?thesis by (simp add: Let_def)
qed

theorem header_mismatch_warns_witness:
  "read_csv dup_env (new_path std_args) = Inr dup_new
   \<and> dup_new \<noteq> []
   \<and> list_index (dup_new ! 0) (date_col std_args) = Inr 0
   \<and> old_path std_args = Some ''old.csv''
   \<and> ''old.csv'' \<noteq> []
   \<and> fs dup_env ''old.csv'' = File 60 (Inr drift_old)
   \<and> (0 :: nat) < 60
   \<and> drift_old \<noteq> []
   \<and> drift_old ! 0 \<noteq> dup_new ! 0
   \<and> (let e' = dup_env\<lparr>fs := (fs dup_env)(''old.csv'' := File 60 (Inr (dup_new ! 0 # tl drift_old)))\<rparr>
      in main std_args dup_env
           = (main std_args e')\<lparr>stderr := headers_differ # stderr (main std_args e')\<rparr>)
   \<and> written (main std_args dup_env) = Some dup_out
   \<and> hd dup_out = dup_new ! 0
   \<and> \<not> isl (date_sub_days (today dup_env) (keep_days std_args))
   \<and> map (parse_date_at 0) (filter (\<lambda>r. length r = length (dup_new ! 0)) (tl dup_new))
       = [Inr (Some (2024, 1, 5)), Inr None, Inr (Some (2024, 1, 5)), Inr (Some (2024, 1, 4))]
   \<and> can_write dup_env (out_path std_args)
   \<and> (\<exists>body. main std_args dup_env
                = \<lparr>exit_code = 0, stderr = [headers_differ], written = Some (dup_new ! 0 # body)\<rparr>)"
proof -
  have ne: "dup_new \<noteq> []" by code_simp
  have p: "old_path std_args = Some ''old.csv''" by code_simp
  have pne: "''old.csv'' \<noteq> []" by simp
  have f: "fs dup_env ''old.csv'' = File 60 (Inr drift_old)" by code_simp
  have n: "(0 :: nat) < 60" by simp
  have one: "drift_old \<noteq> []" by code_simp
  have diff: "drift_old ! 0 \<noteq> dup_new ! 0" by code_simp
  note c = header_mismatch_warns [OF dup_new_read ne dup_index p pne f n one diff]
  note c1 = c [THEN conjunct1]
  note c2 = c [THEN conjunct2, THEN conjunct1, THEN spec, THEN mp, OF dup_written]
  have q1: "\<not> isl (date_sub_days (today dup_env) (keep_days std_args))" by code_simp
  have w: "can_write dup_env (out_path std_args)" by code_simp
  note c3 = c [THEN conjunct2, THEN conjunct2, THEN mp, OF conjI [OF q1 conjI [OF dup_no_raise w]]]
  from dup_new_read ne dup_index p pne f n one diff c1 dup_written c2 q1 dup_dates w c3
  show ?thesis by - (intro conjI; assumption)
qed

text \<open>
  C6. A new table without any row, and a new table whose header lacks the date column,
  end the run with one message on the error stream, exit status 2 and nothing written.
  A new table of one row, a header with the date column, is accepted: the run succeeds
  and writes the header and the history rows of the old table.
\<close>

theorem new_table_validation:
  "(read_csv e (new_path a) = Inr []
      \<longrightarrow> main a e = \<lparr>exit_code = 2, stderr = [Message ''ERROR: new CSV is empty''],
                        written = None\<rparr>)
   \<and> (read_csv e (new_path a) = Inr new_rows \<and> new_rows \<noteq> []
        \<and> date_col a \<notin> set (new_rows ! 0)
      \<longrightarrow> main a e = \<lparr>exit_code = 2,
             stderr = [Message (''ERROR: date column '' @ [CHR 0x27] @ date_col a
                                  @ [CHR 0x27] @ '' not found in NEW header'')],
             written = None\<rparr>)
   \<and> (read_csv e (new_path a) = Inr [header] \<and> date_col a \<in> set header
        \<and> load_old a e header = Inr (old_rows, warn)
        \<and> date_sub_days (today e) (keep_days a) = Inr cutoff
        \<and> can_write e (out_path a)
      \<longrightarrow> (\<exists>di. list_index header (date_col a) = Inr di
            \<and> main a e = \<lparr>exit_code = 0, stderr = warn,
                 written = Some (header # sort_key (key_of di)
                             (filter (is_history header di cutoff) (tl old_rows)))\<rparr>))"
proof -
  have 1: "main a e = \<lparr>exit_code = 2, stderr = [Message ''ERROR: new CSV is empty''],
                        written = None\<rparr>"
    if "read_csv e (new_path a) = Inr []"
    using that by (simp add: main_def sys_exit_def)
  have 2: "main a e = \<lparr>exit_code = 2,
             stderr = [Message (''ERROR: date column '' @ [CHR 0x27] @ date_col a
                                  @ [CHR 0x27] @ '' not found in NEW header'')],
             written = None\<rparr>"
    if r: "read_csv e (new_path a) = Inr new_rows" and ne: "new_rows \<noteq> []"
      and "date_col a \<notin> set (new_rows ! 0)"
  proof -
    from that(3) have "list_index (new_rows ! 0) (date_col a) = Inl ValueError"
      by (rule list_index_missing)
    with r ne show ?thesis by (simp add: main_def sys_exit_def)
  qed
  have 3: "\<exists>di. list_index header (date_col a) = Inr di
            \<and> main a e = \<lparr>exit_code = 0, stderr = warn,
                 written = Some (header # sort_key (key_of di)
                             (filter (is_history header di cutoff) (tl old_rows)))\<rparr>"
    if r: "read_csv e (new_path a) = Inr [header]" and m: "date_col a \<in> set header"
      and lo: "load_old a e header = Inr (old_rows, warn)"
      and c: "date_sub_days (today e) (keep_days a) = Inr cutoff"
      and w: "can_write e (out_path a)"
  proof -
    from list_index_ok [OF m] obtain di where di: "list_index header (date_col a) = Inr di" ..
    have ne: "[header] \<noteq> []" by simp
    have "main a e = \<lparr>exit_code = 0, stderr = warn,
                 written = Some (header # sort_key (key_of di)
                             (filter (is_history header di cutoff) (tl old_rows)))\<rparr>"
      by (rule main_success [OF r ne _ _ c header_only w]) (simp_all add: di lo)
    with di show ?thesis by simp
  qed
  from 1 2 3 show ?thesis by simp
qed

theorem new_table_validation_witness:
  "read_csv (std_env Absent (File 0 (Inr []))) (new_path std_args) = Inr []
   \<and> main std_args (std_env Absent (File 0 (Inr [])))
       = \<lparr>exit_code = 2, stderr = [Message ''ERROR: new CSV is empty''], written = None\<rparr>
   \<and> read_csv scenario_env (new_path (std_args\<lparr>date_col := ''When''\<rparr>)) = Inr scenario_new
   \<and> scenario_new \<noteq> []
   \<and> date_col (std_args\<lparr>date_col := ''When''\<rparr>) \<notin> set (scenario_new ! 0)
   \<and> main (std_args\<lparr>date_col := ''When''\<rparr>) scenario_env
       = \<lparr>exit_code = 2,
          stderr = [Message (''ERROR: date column '' @ [CHR 0x27]
                               @ date_col (std_args\<lparr>date_col := ''When''\<rparr>)
                               @ [CHR 0x27] @ '' not found in NEW header'')],
          written = None\<rparr>
   \<and> read_csv (std_env (File 70 (Inr scenario_old)) (File 11 (Inr [[''Date'', ''Value'']])))
        (new_path std_args) = Inr [[''Date'', ''Value'']]
   \<and> date_col std_args \<in> set [''Date'', ''Value'']
   \<and> load_old std_args (std_env (File 70 (Inr scenario_old)) (File 11 (Inr [[''Date'', ''Value'']])))
        [''Date'', ''Value''] = Inr (scenario_old, [])
   \<and> date_sub_days (today (std_env (File 70 (Inr scenario_old))
                              (File 11 (Inr [[''Date'', ''Value'']]))))
        (keep_days std_args) = Inr (2024, 1, 4)
   \<and> can_write (std_env (File 70 (Inr scenario_old)) (File 11 (Inr [[''Date'', ''Value'']])))
        (out_path std_args)
   \<and> (\<exists>di. list_index [''Date'', ''Value''] (date_col std_args) = Inr di
         \<and> main std_args (std_env (File 70 (Inr scenario_old))
                             (File 11 (Inr [[''Date'', ''Value'']])))
             = \<lparr>exit_code = 0, stderr = [],
                written = Some ([''Date'', ''Value''] # sort_key (key_of di)
                  (filter (is_history [''Date'', ''Value''] di (2024, 1, 4)) (tl scenario_old)))\<rparr>)
   \<and> main std_args (std_env (File 70 (Inr scenario_old)) (File 11 (Inr [[''Date'', ''Value'']])))
       = \<lparr>exit_code = 0, stderr = [],
          written = Some [[''Date'', ''Value''], [''2024-01-01'', ''1''], [''2024-01-02'', ''2''],
            [''2024-01-03'', ''3'']]\<rparr>"
proof -
  let ?ea = "std_env Absent (File 0 (Inr []))"
  let ?ab = "std_args\<lparr>date_col := ''When''\<rparr>"
  let ?ec = "std_env (File 70 (Inr scenario_old)) (File 11 (Inr [[''Date'', ''Value'']]))"
  have a1: "read_csv ?ea (new_path std_args) = Inr []" by code_simp
  note ra = new_table_validation [where e = ?ea and a = std_args, THEN conjunct1, THEN mp, OF a1]
  have b1: "read_csv scenario_env (new_path ?ab) = Inr scenario_new" by code_simp
  have b2: "scenario_new \<noteq> []" by code_simp
  have b3: "date_col ?ab \<notin> set (scenario_new ! 0)" by code_simp
  note rb = new_table_validation [where e = scenario_env and a = ?ab and new_rows = scenario_new,
      THEN conjunct2, THEN conjunct1, THEN mp, OF conjI [OF b1 conjI [OF b2 b3]]]
  have c1: "read_csv ?ec (new_path std_args) = Inr [[''Date'', ''Value'']]" by code_simp
  have c2: "date_col std_args \<in> set [''Date'', ''Value'']" by code_simp
  have c3: "load_old std_args ?ec [''Date'', ''Value''] = Inr (scenario_old, [])" by code_simp
  have c4: "date_sub_days (today ?ec) (keep_days std_args) = Inr (2024, 1, 4)" by code_simp
  have c5: "can_write ?ec (out_path std_args)" by code_simp
  note rc = new_table_validation [where e = ?ec and a = std_args, THEN conjunct2, THEN conjunct2,
      THEN mp, OF conjI [OF c1 conjI [OF c2 conjI [OF c3 conjI [OF c4 c5]]]]]
  have c6: "main std_args ?ec
       = \<lparr>exit_code = 0, stderr = [],
          written = Some [[''Date'', ''Value''], [''2024-01-01'', ''1''], [''2024-01-02'', ''2''],
            [''2024-01-03'', ''3'']]\<rparr>" by code_simp
  from a1 ra b1 b2 b3 rb c1 c2 c3 c4 c5 rc c6
  show ?thesis by - (intro conjI; assumption)
qed

end
